theory Spec2Isabelle
  imports
    Complex_Main
    "HOL-Library.Sublist"
    "HOL-Library.Multiset"
    "HOL-Library.Char_ord"
    "HOL-Library.List_Lexorder"
begin

section \<open>Data model\<close>

text \<open>
  \<open>TrendData\<close> is the row type the application reads from \<open>./types\<close>; the fields
  are the ones the source accesses (\<open>item.Topic\<close>, \<open>item.stat\<close>, ...) and that the
  response schema of the AI service lists. All of them are strings. A string is a list
  of code units; the model covers the code units below 256, read as Latin-1 (\<open>0xC9\<close>
  is the capital E with acute, \<open>0xA0\<close> the no-break space).
\<close>

record TrendData =
  Date :: string
  Company :: string
  Topic :: string
  Technology :: string
  Source :: string
  stat :: string
  ResourceName :: string

text \<open>
  A value produced by \<open>JSON.parse\<close>. \<open>findRelevantStats\<close> returns the parsed
  array behind the unchecked cast \<open>results as AIResult[]\<close>, so an \<open>AIResult\<close> at run
  time is whatever JSON value the model sent. Finite doubles are rationals.
\<close>

datatype jsvalue =
    JNull
  | JBool bool
  | JNumber rat
  | JString string
  | JArray "jsvalue list"
  | JObject "(string \<times> jsvalue) list"

type_synonym AIResult = jsvalue

section \<open>String primitives of the platform\<close>

text \<open>
  \<open>String.prototype.toLowerCase\<close>. Below 256 the code units with a lower-case
  partner are the letters A to Z (\<open>0x41\<close> to \<open>0x5A\<close>) and the Latin-1 capitals
  \<open>0xC0\<close> to \<open>0xDE\<close> without the multiplication sign \<open>0xD7\<close>; the partner is
  32 higher. Every other code unit is kept.
\<close>

definition is_upper :: "char \<Rightarrow> bool" where
  "is_upper c =
     (((65::nat) \<le> of_char c \<and> of_char c \<le> (90::nat)) \<or>
      ((192::nat) \<le> of_char c \<and> of_char c \<le> (222::nat) \<and> of_char c \<noteq> (215::nat)))"

definition lower_unit :: "char \<Rightarrow> char" where
  "lower_unit c = (if is_upper c then char_of (of_char c + (32::nat)) else c)"

definition toLowerCase :: "string \<Rightarrow> string" where
  "toLowerCase s = map lower_unit s"

text \<open>\<open>String.prototype.includes\<close>: the argument occurs as a contiguous run.\<close>

definition includes_str :: "string \<Rightarrow> string \<Rightarrow> bool" where
  "includes_str hay needle = sublist needle hay"

text \<open>\<open>Array.prototype.includes\<close> on an array of strings.\<close>

definition includes_arr :: "string list \<Rightarrow> string \<Rightarrow> bool" where
  "includes_arr xs v = (v \<in> set xs)"

text \<open>
  \<open>String.prototype.trim\<close>: white space and line terminators are removed at both
  ends. Of the code units the model covers these are TAB, LF, VT, FF, CR, SPACE and the
  no-break space \<open>0xA0\<close>.
\<close>

definition is_space :: "char \<Rightarrow> bool" where
  "is_space c = (of_char c \<in> {9::nat, 10, 11, 12, 13, 32, 160})"

definition trim :: "string \<Rightarrow> string" where
  "trim s = rev (dropWhile is_space (rev (dropWhile is_space s)))"

section \<open>Array.prototype.sort\<close>

text \<open>
  \<open>xs.sort(comparefn)\<close> reorders the array in place. The language fixes that the sort
  is stable and leaves the sequence of comparisons to the engine; for a comparator that
  is not consistent the resulting order is engine defined. The model is the stable
  insertion sort: each element in turn moves left past the neighbours that the
  comparator puts after it. Two kinds of fact about it hold of every conforming engine:
  the result is a permutation of the array, and for a consistent comparator it is the
  one stable sorted order. Under a comparator that is not consistent (the random one,
  or the date one when a date does not parse) the order found here is one that an
  engine may produce, not the one every engine produces.

  A comparator may be impure (\<open>Math.random\<close>), so it takes and returns a state. Its
  result is a number; \<open>None\<close> stands for NaN, which \<open>SortCompare\<close> reads as \<open>+0\<close>.
\<close>

type_synonym ('a, 's) comparefn = "'a \<Rightarrow> 'a \<Rightarrow> 's \<Rightarrow> rat option \<times> 's"

definition SortCompare :: "('a, 's) comparefn \<Rightarrow> 'a \<Rightarrow> 'a \<Rightarrow> 's \<Rightarrow> rat \<times> 's" where
  "SortCompare comparefn x y s =
     (case comparefn x y s of (None, s') \<Rightarrow> (0, s') | (Some v, s') \<Rightarrow> (v, s'))"

text \<open>The part of the array already in order is held last element first.\<close>

fun insert_sorted :: "('a, 's) comparefn \<Rightarrow> 'a \<Rightarrow> 'a list \<Rightarrow> 's \<Rightarrow> 'a list \<times> 's" where
  "insert_sorted comparefn x [] s = ([x], s)"
| "insert_sorted comparefn x (y # ys) s =
     (case SortCompare comparefn y x s of
        (v, s') \<Rightarrow>
          if 0 < v
          then (case insert_sorted comparefn x ys s' of (zs, s'') \<Rightarrow> (y # zs, s''))
          else (x # y # ys, s'))"

fun sort_loop :: "('a, 's) comparefn \<Rightarrow> 'a list \<Rightarrow> 'a list \<Rightarrow> 's \<Rightarrow> 'a list \<times> 's" where
  "sort_loop comparefn [] placed s = (rev placed, s)"
| "sort_loop comparefn (x # xs) placed s =
     (case insert_sorted comparefn x placed s of
        (placed', s') \<Rightarrow> sort_loop comparefn xs placed' s')"

definition array_sort :: "('a, 's) comparefn \<Rightarrow> 'a list \<Rightarrow> 's \<Rightarrow> 'a list \<times> 's" where
  "array_sort comparefn xs s = sort_loop comparefn xs [] s"

text \<open>\<open>sort()\<close> without a comparator orders strings by their code units.\<close>

definition default_compare :: "(string, unit) comparefn" where
  "default_compare x y s = (Some (if x < y then - 1 else if y < x then 1 else 0), s)"

text \<open>
  \<open>(a, b) => new Date(b).getTime() - new Date(a).getTime()\<close>. Parsing a date string is
  the platform's: \<open>getTime\<close> gives the milliseconds since the epoch, or \<open>None\<close> for
  the NaN of an invalid date, and a difference with NaN is NaN.
\<close>

definition date_compare :: "(string \<Rightarrow> int option) \<Rightarrow> (string, unit) comparefn" where
  "date_compare getTime a b s =
     (case (getTime b, getTime a) of
        (Some tb, Some ta) \<Rightarrow> (Some (of_int (tb - ta)), s)
      | _ \<Rightarrow> (None, s))"

text \<open>
  \<open>() => 0.5 - Math.random()\<close>. The draws of \<open>Math.random\<close> are a sequence
  \<open>rnd 0, rnd 1, ...\<close> of numbers in \<open>[0, 1)\<close>; the state is the index of the next draw.
\<close>

definition random_compare :: "(nat \<Rightarrow> rat) \<Rightarrow> ('a, nat) comparefn" where
  "random_compare rnd a b k = (Some (1 / 2 - rnd k), Suc k)"

text \<open>
  A pure comparator is consistent on a set of values when it orders them as some key
  into a linear order does.
\<close>

definition agrees :: "('a, 's) comparefn \<Rightarrow> ('a \<Rightarrow> 'k::linorder) \<Rightarrow> 'a set \<Rightarrow> bool" where
  "agrees c key A = (\<forall>y \<in> A. \<forall>x \<in> A. \<forall>s. (0 < fst (SortCompare c y x s)) = (key x < key y))"

section \<open>Filter engine (App.tsx)\<close>

text \<open>The callback of \<open>allData.filter\<close> in \<open>filteredData\<close>, clause by clause.\<close>

definition filter_item :: "string list \<Rightarrow> string list \<Rightarrow> string list \<Rightarrow> string \<Rightarrow> TrendData \<Rightarrow> bool" where
  "filter_item selectedTopics selectedCompanies selectedDates searchTerm item =
     (let topicMatch = (length selectedTopics = 0 \<or> includes_arr selectedTopics (Topic item));
          companyMatch = (length selectedCompanies = 0 \<or> includes_arr selectedCompanies (Company item));
          dateMatch = (length selectedDates = 0 \<or> includes_arr selectedDates (Date item));
          searchLower = toLowerCase searchTerm;
          termMatch = (searchTerm = [] \<or>
            includes_str (toLowerCase (stat item)) searchLower \<or>
            includes_str (toLowerCase (ResourceName item)) searchLower \<or>
            includes_str (toLowerCase (Company item)) searchLower \<or>
            includes_str (toLowerCase (Topic item)) searchLower \<or>
            includes_str (toLowerCase (Technology item)) searchLower)
      in topicMatch \<and> companyMatch \<and> dateMatch \<and> termMatch)"

definition filteredData :: "TrendData list \<Rightarrow> string list \<Rightarrow> string list \<Rightarrow> string list \<Rightarrow> string \<Rightarrow> TrendData list" where
  "filteredData allData selectedTopics selectedCompanies selectedDates searchTerm =
     filter (filter_item selectedTopics selectedCompanies selectedDates searchTerm) allData"

text \<open>
  \<open>filterOptions\<close>. A \<open>Set\<close> of strings is the list of its members in insertion
  order, which is the order \<open>Array.from\<close> reads them in.
\<close>

record FilterOptions =
  topics :: "string list"
  companies :: "string list"
  dates :: "string list"

definition set_add :: "string list \<Rightarrow> string \<Rightarrow> string list" where
  "set_add members v = (if v \<in> set members then members else members @ [v])"

text \<open>The body of \<open>allData.forEach\<close>; a string is truthy when it is not empty.\<close>

definition collect_item ::
  "TrendData \<Rightarrow> string list \<times> string list \<times> string list \<Rightarrow> string list \<times> string list \<times> string list" where
  "collect_item item sets =
     (case sets of (ts, cs, ds) \<Rightarrow>
        (if Topic item \<noteq> [] then set_add ts (Topic item) else ts,
         if Company item \<noteq> [] then set_add cs (Company item) else cs,
         if Date item \<noteq> [] then set_add ds (Date item) else ds))"

text \<open>One of the three sets of that loop on its own.\<close>

definition collect_field :: "(TrendData \<Rightarrow> string) \<Rightarrow> TrendData list \<Rightarrow> string list \<Rightarrow> string list" where
  "collect_field f D members =
     fold (\<lambda>item m. if f item \<noteq> [] then set_add m (f item) else m) D members"

definition filterOptions :: "(string \<Rightarrow> int option) \<Rightarrow> TrendData list \<Rightarrow> FilterOptions" where
  "filterOptions getTime allData =
     (case fold collect_item allData ([], [], []) of (ts, cs, ds) \<Rightarrow>
        \<lparr>topics = fst (array_sort default_compare ts ()),
         companies = fst (array_sort default_compare cs ()),
         dates = fst (array_sort (date_compare getTime) ds ())\<rparr>)"

text \<open>
  "Sorted by parsed calendar value, most recent first": the times of the entries that
  parse never increase along the list.
\<close>

definition descending_by_time :: "(string \<Rightarrow> int option) \<Rightarrow> string list \<Rightarrow> bool" where
  "descending_by_time getTime ds = sorted (rev (List.map_filter getTime ds))"

text \<open>
  The facet and term predicates in the words of the specification (section 4.2), to
  compare the code with.
\<close>

definition facet_passes :: "string list \<Rightarrow> string \<Rightarrow> bool" where
  "facet_passes selection v = (selection = [] \<or> v \<in> set selection)"

definition term_passes :: "string \<Rightarrow> TrendData \<Rightarrow> bool" where
  "term_passes t r =
     (t = [] \<or>
      (\<exists>field \<in> {stat r, ResourceName r, Company r, Topic r, Technology r}.
         \<exists>before after. toLowerCase field = before @ toLowerCase t @ after))"

text \<open>
  The three facet toggles (\<open>handleTopicToggle\<close>, \<open>handleCompanyToggle\<close>,
  \<open>handleDateToggle\<close>) pass the same updater to their state setter.
\<close>

definition toggle :: "string \<Rightarrow> string list \<Rightarrow> string list" where
  "toggle v prev = (if includes_arr prev v then filter (\<lambda>t. t \<noteq> v) prev else prev @ [v])"

section \<open>AI service (services/aiService)\<close>

text \<open>
  A rejected promise or a \<open>throw\<close> is a value \<open>Inl e\<close>. The two functions build their
  own \<open>Error\<close> with a fixed message. The calls to \<open>console\<close> are not modelled.
\<close>

datatype error = Error string

text \<open>
  The request of \<open>findRelevantStats\<close>: the prompt is fixed text around the user's
  query and \<open>JSON.stringify(dataSubset)\<close>, so the request is modelled by these two.
\<close>

record search_request =
  query :: string
  available_data :: "TrendData list"

text \<open>
  Line 37, \<open>data.length > 200 ? data.sort(() => 0.5 - Math.random()).slice(0, 200) : data\<close>.
  \<open>sort\<close> reorders the array it is called on and returns that same array; \<open>slice\<close>
  copies its first 200 entries. The result is the content of the caller's \<open>data\<close>
  array after the line, and \<open>dataSubset\<close>.
\<close>

definition select_dataSubset :: "(nat \<Rightarrow> rat) \<Rightarrow> TrendData list \<Rightarrow> TrendData list \<times> TrendData list" where
  "select_dataSubset rnd data =
     (if 200 < length data
      then (let sorted = fst (array_sort (random_compare rnd) data 0) in (sorted, take 200 sorted))
      else (data, data))"

text \<open>
  \<open>findRelevantStats\<close> up to its \<open>await\<close>: the caller's array after the call, and
  the request handed to \<open>generateContent\<close>.
\<close>

definition findRelevantStats_request ::
  "(nat \<Rightarrow> rat) \<Rightarrow> string \<Rightarrow> TrendData list \<Rightarrow> TrendData list \<times> search_request" where
  "findRelevantStats_request rnd userQuery data =
     (case select_dataSubset rnd data of
        (data', dataSubset) \<Rightarrow> (data', \<lparr>query = userQuery, available_data = dataSubset\<rparr>))"

definition isArray :: "jsvalue \<Rightarrow> bool" where
  "isArray v = (case v of JArray _ \<Rightarrow> True | _ \<Rightarrow> False)"

definition search_failed :: error where
  "search_failed = Error ''Failed to get a response from the AI. Please try again.''"

text \<open>
  The \<open>try\<close> block after the \<open>await\<close>, with its \<open>catch\<close>. The argument is how the
  call to \<open>generateContent\<close> settled: rejected, or resolved with a response, of which
  the code reads \<open>response.text\<close>. The library leaves \<open>text\<close> undefined when the
  response carries no text (no candidate, or no text part): that is \<open>Inr None\<close>, and
  \<open>response.text.trim()\<close> then throws a \<open>TypeError\<close> inside the \<open>try\<close>.
  \<open>JSON.parse\<close> is the platform's; \<open>None\<close> is its \<open>SyntaxError\<close>.
\<close>

definition findRelevantStats_response ::
  "(string \<Rightarrow> jsvalue option) \<Rightarrow> error + string option \<Rightarrow> error + AIResult list" where
  "findRelevantStats_response JSON_parse settled =
     (case settled of
        Inl e \<Rightarrow> Inl search_failed
      | Inr None \<Rightarrow> Inl search_failed
      | Inr (Some text) \<Rightarrow>
          (let jsonText = trim text in
           if jsonText = [] then Inr []
           else (case JSON_parse jsonText of
                   None \<Rightarrow> Inl search_failed
                 | Some results \<Rightarrow>
                     if \<not> isArray results then Inr []
                     else (case results of JArray rs \<Rightarrow> Inr rs | _ \<Rightarrow> Inr []))))"

text \<open>
  The whole call: the caller's array afterwards, the one request sent, and the result.
\<close>

definition findRelevantStats ::
  "(nat \<Rightarrow> rat) \<Rightarrow> (search_request \<Rightarrow> error + string option) \<Rightarrow>
   (string \<Rightarrow> jsvalue option) \<Rightarrow>
   string \<Rightarrow> TrendData list \<Rightarrow> TrendData list \<times> search_request \<times> (error + AIResult list)" where
  "findRelevantStats rnd generateContent JSON_parse userQuery data =
     (case findRelevantStats_request rnd userQuery data of
        (data', request) \<Rightarrow>
          (data', request, findRelevantStats_response JSON_parse (generateContent request)))"

text \<open>
  \<open>JSON.stringify(v, (key, value) => key === 'reason' ? undefined : value, 2)\<close>: the
  value that is written out. The replacer is asked for every property of every object
  and for every array entry, at any depth; a property for which it answers
  \<open>undefined\<close> is left out. The key of an array entry is its index and the key of the
  root is the empty string, neither of which is \<open>reason\<close>. The layout of the text
  (indentation by 2) is not modelled.
\<close>

fun stringify_value :: "jsvalue \<Rightarrow> jsvalue"
  and stringify_properties :: "(string \<times> jsvalue) list \<Rightarrow> (string \<times> jsvalue) list"
  and stringify_entries :: "jsvalue list \<Rightarrow> jsvalue list" where
  "stringify_value (JObject props) = JObject (stringify_properties props)"
| "stringify_value (JArray xs) = JArray (stringify_entries xs)"
| "stringify_value JNull = JNull"
| "stringify_value (JBool b) = JBool b"
| "stringify_value (JNumber n) = JNumber n"
| "stringify_value (JString s) = JString s"
| "stringify_properties [] = []"
| "stringify_properties (p # ps) =
     (if fst p = ''reason'' then stringify_properties ps
      else (fst p, stringify_value (snd p)) # stringify_properties ps)"
| "stringify_entries [] = []"
| "stringify_entries (x # xs) = stringify_value x # stringify_entries xs"

text \<open>Some object inside the value, at any depth, has a property of this name.\<close>

fun has_property :: "string \<Rightarrow> jsvalue \<Rightarrow> bool"
  and has_property_in :: "string \<Rightarrow> (string \<times> jsvalue) list \<Rightarrow> bool"
  and has_property_among :: "string \<Rightarrow> jsvalue list \<Rightarrow> bool" where
  "has_property k (JObject props) = has_property_in k props"
| "has_property k (JArray xs) = has_property_among k xs"
| "has_property k JNull = False"
| "has_property k (JBool b) = False"
| "has_property k (JNumber n) = False"
| "has_property k (JString s) = False"
| "has_property_in k [] = False"
| "has_property_in k (p # ps) = (fst p = k \<or> has_property k (snd p) \<or> has_property_in k ps)"
| "has_property_among k [] = False"
| "has_property_among k (x # xs) = (has_property k x \<or> has_property_among k xs)"

text \<open>
  What the specification has the summary client send for a record: the record without
  its \<open>reason\<close> field. Written with \<open>filter\<close> and \<open>map\<close>, apart from the
  replacer's traversal, and for any value: every property named \<open>reason\<close> is left
  out, in the record and in whatever is nested in it, and nothing else changes.
\<close>

fun without_reason :: "jsvalue \<Rightarrow> jsvalue" where
  "without_reason (JObject props) =
     JObject (map (\<lambda>p. (fst p, without_reason (snd p))) (filter (\<lambda>p. fst p \<noteq> ''reason'') props))"
| "without_reason (JArray xs) = JArray (map without_reason xs)"
| "without_reason v = v"

definition summary_failed :: error where
  "summary_failed = Error ''Failed to generate AI summary. The model may be temporarily unavailable.''"

text \<open>
  \<open>generateSummary\<close>. The prompt is fixed text around the stringified subset, so a
  request is modelled by that value. The result comes with the list of requests made
  to the model, in order. As in the search, \<open>response.text.trim()\<close> is inside the
  \<open>try\<close> and throws when the response carries no text.
\<close>

definition generateSummary ::
  "(jsvalue \<Rightarrow> error + string option) \<Rightarrow> AIResult list \<Rightarrow> jsvalue list \<times> (error + string)" where
  "generateSummary generateContent data =
     (if length data = 0 then ([], Inr ''No data available to generate a summary.'')
      else
        (let dataSubset = (if 50 < length data then take 50 data else data);
             payload = stringify_value (JArray dataSubset)
         in ([payload],
             case generateContent payload of
               Inl e \<Rightarrow> Inl summary_failed
             | Inr None \<Rightarrow> Inl summary_failed
             | Inr (Some text) \<Rightarrow> Inr (trim text))))"

section \<open>View coordinator (App.tsx)\<close>

text \<open>The record shown in the detail overlay is a table row or an AI result.\<close>

datatype stat_ref = Row TrendData | Result AIResult

record app_state =
  allData :: "TrendData list"
  isDataLoading :: bool
  dataError :: "string option"
  searchQuery :: string
  aiResults :: "AIResult list"
  isSearching :: bool
  aiError :: "string option"
  summary :: "string option"
  isSummarizing :: bool
  summaryError :: "string option"
  selectedTopics :: "string list"
  selectedCompanies :: "string list"
  selectedDates :: "string list"
  searchTerm :: string
  selectedStat :: "stat_ref option"

text \<open>The arguments of the \<open>useState\<close> calls.\<close>

definition initial_state :: app_state where
  "initial_state =
     \<lparr>allData = [], isDataLoading = True, dataError = None, searchQuery = [],
      aiResults = [], isSearching = False, aiError = None, summary = None,
      isSummarizing = False, summaryError = None, selectedTopics = [],
      selectedCompanies = [], selectedDates = [], searchTerm = [], selectedStat = None\<rparr>"

text \<open>How \<open>loadData\<close> ends, given how \<open>fetchAndParseData\<close> settled.\<close>

definition loadData_settled :: "error + TrendData list \<Rightarrow> app_state \<Rightarrow> app_state" where
  "loadData_settled settled s =
     (case settled of
        Inr data \<Rightarrow> s\<lparr>allData := data, dataError := None, isDataLoading := False\<rparr>
      | Inl e \<Rightarrow>
          s\<lparr>dataError := Some ''Failed to load the cybersecurity data trends. The AI assistant needs this data to function.'',
            isDataLoading := False\<rparr>)"

definition handleClearSummary :: "app_state \<Rightarrow> app_state" where
  "handleClearSummary s = s\<lparr>summary := None, summaryError := None\<rparr>"

text \<open>
  \<open>handleAiSearch\<close> up to the \<open>await\<close>. With a blank query or a search in flight it
  returns at once. Otherwise it sets the flags and calls \<open>findRelevantStats\<close>, which
  runs up to its own \<open>await\<close>: the array it may reorder is the very array held in
  \<open>allData\<close>. The second component is the request made, if any.
\<close>

definition handleAiSearch_submit :: "(nat \<Rightarrow> rat) \<Rightarrow> app_state \<Rightarrow> app_state \<times> search_request option" where
  "handleAiSearch_submit rnd s =
     (if trim (searchQuery s) = [] \<or> isSearching s then (s, None)
      else
        (let s1 = handleClearSummary
                    (s\<lparr>isSearching := True, aiError := None, aiResults := [], selectedStat := None\<rparr>)
         in case findRelevantStats_request rnd (searchQuery s) (allData s) of
              (data', request) \<Rightarrow> (s1\<lparr>allData := data'\<rparr>, Some request)))"

text \<open>The rest of \<open>handleAiSearch\<close>: \<open>try\<close>, \<open>catch\<close> and \<open>finally\<close>.\<close>

definition handleAiSearch_settled :: "error + AIResult list \<Rightarrow> app_state \<Rightarrow> app_state" where
  "handleAiSearch_settled settled s =
     (case settled of
        Inr results \<Rightarrow> s\<lparr>aiResults := results, isSearching := False\<rparr>
      | Inl (Error message) \<Rightarrow>
          s\<lparr>aiError := Some (if message \<noteq> [] then message
                              else ''An unknown error occurred during the AI search.''),
            isSearching := False\<rparr>)"

definition handleClearAiSearch :: "app_state \<Rightarrow> app_state" where
  "handleClearAiSearch s = handleClearSummary (s\<lparr>aiResults := [], aiError := None, searchQuery := []\<rparr>)"

definition handleStatSelect :: "stat_ref \<Rightarrow> app_state \<Rightarrow> app_state" where
  "handleStatSelect st s = s\<lparr>selectedStat := Some st\<rparr>"

definition handleCloseModal :: "app_state \<Rightarrow> app_state" where
  "handleCloseModal s = s\<lparr>selectedStat := None\<rparr>"

definition handleTopicToggle :: "string \<Rightarrow> app_state \<Rightarrow> app_state" where
  "handleTopicToggle topic s = s\<lparr>selectedTopics := toggle topic (selectedTopics s)\<rparr>"

definition handleCompanyToggle :: "string \<Rightarrow> app_state \<Rightarrow> app_state" where
  "handleCompanyToggle company s = s\<lparr>selectedCompanies := toggle company (selectedCompanies s)\<rparr>"

definition handleDateToggle :: "string \<Rightarrow> app_state \<Rightarrow> app_state" where
  "handleDateToggle date s = s\<lparr>selectedDates := toggle date (selectedDates s)\<rparr>"

definition handleResetFilters :: "app_state \<Rightarrow> app_state" where
  "handleResetFilters s =
     handleClearSummary
       (s\<lparr>selectedTopics := [], selectedCompanies := [], selectedDates := [], searchTerm := []\<rparr>)"

text \<open>\<open>handleGenerateSummary\<close> up to the \<open>await\<close>, with the argument of the call made.\<close>

definition handleGenerateSummary_submit :: "app_state \<Rightarrow> app_state \<times> AIResult list option" where
  "handleGenerateSummary_submit s =
     (if length (aiResults s) = 0 then (s, None)
      else (s\<lparr>isSummarizing := True, summary := None, summaryError := None\<rparr>, Some (aiResults s)))"

definition handleGenerateSummary_settled :: "error + string \<Rightarrow> app_state \<Rightarrow> app_state" where
  "handleGenerateSummary_settled settled s =
     (case settled of
        Inr result \<Rightarrow> s\<lparr>summary := Some result, isSummarizing := False\<rparr>
      | Inl (Error message) \<Rightarrow> s\<lparr>summaryError := Some message, isSummarizing := False\<rparr>)"

text \<open>
  What the user and the pending promises can do to the state, and the handler each
  one runs. The detail overlay calls \<open>onClose\<close>, which is \<open>handleCloseModal\<close>, from
  its close button, from a click on its backdrop and from the Escape key; its key
  listener exists only while the overlay is mounted.
\<close>

datatype event =
    DataSettled "error + TrendData list"
  | QueryEdited string
  | TermEdited string
  | TopicToggled string
  | CompanyToggled string
  | DateToggled string
  | FiltersReset
  | SearchSubmitted
  | SearchSettled "error + AIResult list"
  | SearchCleared
  | StatSelected stat_ref
  | ModalClosed
  | EscapePressed
  | SummaryRequested
  | SummarySettled "error + string"
  | SummaryCleared

fun step :: "(nat \<Rightarrow> rat) \<Rightarrow> event \<Rightarrow> app_state \<Rightarrow> app_state" where
  "step rnd (DataSettled r) s = loadData_settled r s"
| "step rnd (QueryEdited q) s = s\<lparr>searchQuery := q\<rparr>"
| "step rnd (TermEdited t) s = s\<lparr>searchTerm := t\<rparr>"
| "step rnd (TopicToggled v) s = handleTopicToggle v s"
| "step rnd (CompanyToggled v) s = handleCompanyToggle v s"
| "step rnd (DateToggled v) s = handleDateToggle v s"
| "step rnd FiltersReset s = handleResetFilters s"
| "step rnd SearchSubmitted s = fst (handleAiSearch_submit rnd s)"
| "step rnd (SearchSettled r) s = handleAiSearch_settled r s"
| "step rnd SearchCleared s = handleClearAiSearch s"
| "step rnd (StatSelected st) s = handleStatSelect st s"
| "step rnd ModalClosed s = handleCloseModal s"
| "step rnd EscapePressed s = (if selectedStat s \<noteq> None then handleCloseModal s else s)"
| "step rnd SummaryRequested s = fst (handleGenerateSummary_submit s)"
| "step rnd (SummarySettled r) s = handleGenerateSummary_settled r s"
| "step rnd SummaryCleared s = handleClearSummary s"

text \<open>
  The view the render function shows, under the specification's names. The two early
  returns come first; of the panels of the results section the first that applies in
  document order is taken. A string or null is truthy when it is a non-empty string.
\<close>

datatype view = Loading | DataError | Browse | AISearching | AIError | AIResults

definition truthy :: "string option \<Rightarrow> bool" where
  "truthy v = (case v of None \<Rightarrow> False | Some m \<Rightarrow> m \<noteq> [])"

definition showAiResults :: "app_state \<Rightarrow> bool" where
  "showAiResults s = (0 < length (aiResults s) \<or> isSearching s \<or> truthy (aiError s))"

definition activeView :: "app_state \<Rightarrow> view" where
  "activeView s =
     (if isDataLoading s then Loading
      else if truthy (dataError s) then DataError
      else if isSearching s then AISearching
      else if truthy (aiError s) then AIError
      else if 0 < length (aiResults s) \<and> \<not> isSearching s then AIResults
      else Browse)"

section \<open>Example inputs\<close>

text \<open>The record of the scenario in section 8 of the specification.\<close>

definition example_record :: TrendData where
  "example_record =
     \<lparr>Date = ''2024-01-01'', Company = ''Acme'', Topic = ''Phishing'', Technology = ''Email'',
      Source = ''http://x'', stat = ''60% of breaches involve phishing'',
      ResourceName = ''Report A''\<rparr>"

text \<open>
  Rows that differ in their date only, and a date parser that knows two ISO dates (with
  their true epoch milliseconds) and rejects every other string, as the platform's
  parser rejects \<open>n/a\<close>.
\<close>

definition dated :: "string \<Rightarrow> TrendData" where
  "dated d = example_record\<lparr>Date := d\<rparr>"

definition iso_getTime :: "string \<Rightarrow> int option" where
  "iso_getTime d =
     (if d = ''2023-01-01'' then Some 1672531200000
      else if d = ''2024-01-01'' then Some 1704067200000
      else None)"

definition parsable_dates :: "TrendData list" where
  "parsable_dates = [dated ''2023-01-01'', dated ''2024-01-01'', dated ''2023-01-01'']"

definition mixed_dates :: "TrendData list" where
  "mixed_dates = [dated ''2023-01-01'', dated ''n/a'', dated ''2024-01-01'']"

text \<open>A corpus of 201 rows that differ in their statistic.\<close>

definition record_no :: "nat \<Rightarrow> TrendData" where
  "record_no i =
     \<lparr>Date = [], Company = [], Topic = [], Technology = [], Source = [],
      stat = replicate (Suc i) (CHR ''I''), ResourceName = ''Report''\<rparr>"

definition corpus201 :: "TrendData list" where
  "corpus201 = map record_no [0..<201]"

text \<open>
  Fifty-one AI results with every field of the response schema, the \<open>reason\<close>
  among them, and the same rows as they are to be sent.
\<close>

definition result_no :: "nat \<Rightarrow> AIResult" where
  "result_no i =
     JObject [(''Date'', JString ''2024-01-01''),
              (''Company'', JString ''Acme''),
              (''Topic'', JString ''Phishing''),
              (''Technology'', JString ''Email''),
              (''Source'', JString ''http://x''),
              (''stat'', JString (replicate (Suc i) (CHR ''I''))),
              (''ResourceName'', JString ''Report''),
              (''reason'', JString ''matches the query'')]"

definition sent_no :: "nat \<Rightarrow> jsvalue" where
  "sent_no i =
     JObject [(''Date'', JString ''2024-01-01''),
              (''Company'', JString ''Acme''),
              (''Topic'', JString ''Phishing''),
              (''Technology'', JString ''Email''),
              (''Source'', JString ''http://x''),
              (''stat'', JString (replicate (Suc i) (CHR ''I''))),
              (''ResourceName'', JString ''Report'')]"

definition results51 :: "AIResult list" where
  "results51 = map result_no [0..<51]"

text \<open>
  Two sequences of draws of \<open>Math.random\<close>: all draws 0.75; and a first draw of 0.25
  followed by 0.75.
\<close>

definition steady_draws :: "nat \<Rightarrow> rat" where
  "steady_draws k = 3 / 4"

definition swap_draws :: "nat \<Rightarrow> rat" where
  "swap_draws k = (if k = 0 then 1 / 4 else 3 / 4)"

text \<open>\<open>JSON.parse\<close> on the two texts the examples use; other texts are rejected.\<close>

definition parse_literals :: "string \<Rightarrow> jsvalue option" where
  "parse_literals t =
     (if t = ''[]'' then Some (JArray [])
      else if t = ''{}'' then Some (JObject [])
      else None)"

text \<open>
  States of the application: after loading one row; with a query typed and the detail
  overlay open on that row; and after loading the corpus of 201 rows, with a query typed.
\<close>

definition browse_state :: app_state where
  "browse_state = loadData_settled (Inr [example_record]) initial_state"

definition open_state :: app_state where
  "open_state = browse_state\<lparr>searchQuery := ''phishing'', selectedStat := Some (Row example_record)\<rparr>"

definition big_state :: app_state where
  "big_state = (loadData_settled (Inr corpus201) initial_state)\<lparr>searchQuery := ''phishing''\<rparr>"

definition blank_query_state :: app_state where
  "blank_query_state = browse_state\<lparr>searchQuery := [CHR '' '', CHR 0x09, CHR 0x0A, CHR 0xA0]\<rparr>"

text \<open>The overlay open while the query typed is a no-break space and a space.\<close>

definition open_blank_state :: app_state where
  "open_blank_state = open_state\<lparr>searchQuery := [CHR 0xA0, CHR '' '']\<rparr>"

text \<open>A row whose statistic is written with accented letters, in lower case.\<close>

definition accented_record :: TrendData where
  "accented_record = example_record\<lparr>stat := [CHR 0xE9, CHR ''t'', CHR 0xE9]\<rparr>"

section \<open>Filtering is sound and order preserving\<close>

lemma filter_item_iff:
  "filter_item ts cs ds t r \<longleftrightarrow>
     facet_passes ts (Topic r) \<and> facet_passes cs (Company r) \<and> facet_passes ds (Date r) \<and>
     term_passes t r"
  by (auto simp: filter_item_def facet_passes_def term_passes_def includes_arr_def
      includes_str_def sublist_def Let_def)

lemma filter_item_no_filters: "filter_item [] [] [] [] r"
  by (simp add: filter_item_def)

text \<open>
  Claim C1. For every dataset, facet selection and term, the filtered list is a
  subsequence of the dataset in the dataset's order; every record in it passes the
  topic, company and date facet predicates and the term predicate; and with all
  selections and the term empty the filtered list is the dataset itself.
\<close>

theorem filteredData_sound:
  "subseq (filteredData D ts cs ds t) D \<and>
   (\<forall>r \<in> set (filteredData D ts cs ds t).
      r \<in> set D \<and> facet_passes ts (Topic r) \<and> facet_passes cs (Company r) \<and>
      facet_passes ds (Date r) \<and> term_passes t r) \<and>
   filteredData D [] [] [] [] = D"
proof (intro conjI ballI)
  show "subseq (filteredData D ts cs ds t) D"
    by (simp add: filteredData_def)
next
  fix r assume "r \<in> set (filteredData D ts cs ds t)"
  then have "r \<in> set D" and "filter_item ts cs ds t r"
    by (simp_all add: filteredData_def)
  then show "r \<in> set D" "facet_passes ts (Topic r)" "facet_passes cs (Company r)"
    "facet_passes ds (Date r)" "term_passes t r"
    by (simp_all add: filter_item_iff)
next
  show "filteredData D [] [] [] [] = D"
    by (simp add: filteredData_def filter_item_no_filters)
qed

theorem filteredData_sound_witness:
  "example_record \<in> set (filteredData [example_record] [''Phishing''] [] [] ''PHISHING'') \<and>
   subseq (filteredData [example_record] [''Phishing''] [] [] ''PHISHING'') [example_record] \<and>
   facet_passes [''Phishing''] (Topic example_record) \<and>
   term_passes ''PHISHING'' example_record \<and>
   filteredData [example_record] [] [] [] ''ransomware'' = [] \<and>
   filteredData [accented_record] [] [] [] [CHR 0xC9] = [accented_record] \<and>
   term_passes [CHR 0xC9] accented_record"
proof -
  have m: "filteredData [example_record] [''Phishing''] [] [] ''PHISHING'' = [example_record]"
    by code_simp
  have n: "filteredData [example_record] [] [] [] ''ransomware'' = []"
    by code_simp
  have a: "filteredData [accented_record] [] [] [] [CHR 0xC9] = [accented_record]"
    by code_simp
  from m have "example_record \<in> set (filteredData [example_record] [''Phishing''] [] [] ''PHISHING'')"
    by simp
  moreover from a have "accented_record \<in> set (filteredData [accented_record] [] [] [] [CHR 0xC9])"
    by simp
  ultimately show ?thesis
    using filteredData_sound [of "[example_record]" "[''Phishing'']" "[]" "[]" "''PHISHING''"]
      filteredData_sound [of "[accented_record]" "[]" "[]" "[]" "[CHR 0xC9]"] n a
    by blast
qed

section \<open>Facet toggles\<close>

lemma toggle_members:
  "set (toggle v s) = (if v \<in> set s then set s - {v} else insert v (set s))"
  by (auto simp: toggle_def includes_arr_def)

lemma toggle_twice: "set (toggle v (toggle v s)) = set s"
  by (auto simp: toggle_def includes_arr_def)

text \<open>
  Claim C10. Each of \<open>handleTopicToggle\<close>, \<open>handleCompanyToggle\<close> and
  \<open>handleDateToggle\<close> adds the value to its selection when it is absent and removes it
  when it is present, and run twice with the same value it leaves a selection with the
  members it started with.
\<close>

theorem facet_toggles_involution:
  "set (selectedTopics (handleTopicToggle v s)) =
     (if v \<in> set (selectedTopics s) then set (selectedTopics s) - {v}
      else insert v (set (selectedTopics s))) \<and>
   set (selectedTopics (handleTopicToggle v (handleTopicToggle v s))) = set (selectedTopics s) \<and>
   set (selectedCompanies (handleCompanyToggle v s)) =
     (if v \<in> set (selectedCompanies s) then set (selectedCompanies s) - {v}
      else insert v (set (selectedCompanies s))) \<and>
   set (selectedCompanies (handleCompanyToggle v (handleCompanyToggle v s))) =
     set (selectedCompanies s) \<and>
   set (selectedDates (handleDateToggle v s)) =
     (if v \<in> set (selectedDates s) then set (selectedDates s) - {v}
      else insert v (set (selectedDates s))) \<and>
   set (selectedDates (handleDateToggle v (handleDateToggle v s))) = set (selectedDates s)"
proof -
  have once:
    "selectedTopics (handleTopicToggle v s) = toggle v (selectedTopics s)"
    "selectedCompanies (handleCompanyToggle v s) = toggle v (selectedCompanies s)"
    "selectedDates (handleDateToggle v s) = toggle v (selectedDates s)"
    by (simp_all add: handleTopicToggle_def handleCompanyToggle_def handleDateToggle_def)
  have twice:
    "selectedTopics (handleTopicToggle v (handleTopicToggle v s)) =
       toggle v (toggle v (selectedTopics s))"
    "selectedCompanies (handleCompanyToggle v (handleCompanyToggle v s)) =
       toggle v (toggle v (selectedCompanies s))"
    "selectedDates (handleDateToggle v (handleDateToggle v s)) =
       toggle v (toggle v (selectedDates s))"
    by (simp_all add: handleTopicToggle_def handleCompanyToggle_def handleDateToggle_def)
  show ?thesis
    unfolding once twice by (intro conjI toggle_members toggle_twice)
qed

section \<open>The sort model permutes, and sorts under a consistent comparator\<close>

lemma mset_insert_sorted:
  "mset (fst (insert_sorted c x ys s)) = add_mset x (mset ys)"
proof (induction ys arbitrary: s)
  case Nil
  show ?case by simp
next
  case (Cons y ys)
  obtain v s' where sc: "SortCompare c y x s = (v, s')" by force
  obtain zs s'' where r: "insert_sorted c x ys s' = (zs, s'')" by force
  have "mset zs = add_mset x (mset ys)"
    using Cons.IH [of s'] r by simp
  then show ?case using sc r by simp
qed

lemma mset_sort_loop:
  "mset (fst (sort_loop c xs acc s)) = mset xs + mset acc"
proof (induction xs arbitrary: acc s)
  case Nil
  show ?case by simp
next
  case (Cons x xs)
  obtain acc' s' where i: "insert_sorted c x acc s = (acc', s')" by force
  have "mset acc' = add_mset x (mset acc)"
    using mset_insert_sorted [of c x acc s] i by simp
  with Cons.IH [of acc' s'] i show ?case by simp
qed

lemma mset_array_sort: "mset (fst (array_sort c xs s)) = mset xs"
  by (simp add: array_sort_def mset_sort_loop)

lemma insert_sorted_desc:
  assumes "agrees c key A" "x \<in> A" "set ys \<subseteq> A" "sorted (rev (map key ys))"
  shows "sorted (rev (map key (fst (insert_sorted c x ys s))))"
  using assms(3,4)
proof (induction ys arbitrary: s)
  case Nil
  show ?case by simp
next
  case (Cons y ys)
  obtain v s' where sc: "SortCompare c y x s = (v, s')" by force
  have yA: "y \<in> A" and sub: "set ys \<subseteq> A" using Cons.prems by auto
  have v: "(0 < v) = (key x < key y)"
    using assms(1) yA assms(2) sc unfolding agrees_def by (metis fst_conv)
  have tl: "sorted (rev (map key ys))" and hd: "\<forall>z \<in> set ys. key z \<le> key y"
    using Cons.prems(2) by (auto simp: sorted_append)
  show ?case
  proof (cases "0 < v")
    case True
    obtain zs s'' where r: "insert_sorted c x ys s' = (zs, s'')" by force
    have "mset zs = add_mset x (mset ys)"
      using mset_insert_sorted [of c x ys s'] r by simp
    then have "set zs = insert x (set ys)"
      by (metis set_mset_add_mset_insert set_mset_mset)
    moreover have "sorted (rev (map key zs))"
      using Cons.IH [OF sub tl, of s'] r by simp
    ultimately show ?thesis
      using sc True r hd v by (auto simp: sorted_append)
  next
    case False
    then show ?thesis
      using sc v Cons.prems(2) by (auto simp: sorted_append)
  qed
qed

lemma sort_loop_sorted:
  assumes "agrees c key A"
  shows "set xs \<subseteq> A \<Longrightarrow> set acc \<subseteq> A \<Longrightarrow> sorted (rev (map key acc)) \<Longrightarrow>
    sorted (map key (fst (sort_loop c xs acc s)))"
proof (induction xs arbitrary: acc s)
  case Nil
  then show ?case by (simp add: rev_map)
next
  case (Cons x xs)
  obtain acc' s' where i: "insert_sorted c x acc s = (acc', s')" by force
  have "mset acc' = add_mset x (mset acc)"
    using mset_insert_sorted [of c x acc s] i by simp
  then have "set acc' = insert x (set acc)"
    by (metis set_mset_add_mset_insert set_mset_mset)
  then have sub: "set acc' \<subseteq> A" using Cons.prems by auto
  have "sorted (rev (map key acc'))"
    using insert_sorted_desc [OF assms, of x acc s] Cons.prems i by simp
  with Cons.IH [of acc' s'] sub Cons.prems(1) i show ?case by simp
qed

lemma array_sort_sorted:
  assumes "agrees c key (set xs)"
  shows "sorted (map key (fst (array_sort c xs s)))"
  using sort_loop_sorted [OF assms, of xs "[]" s] by (simp add: array_sort_def)

lemma agrees_default: "agrees default_compare (\<lambda>x. x) A"
  by (auto simp: agrees_def SortCompare_def default_compare_def)


lemma set_array_sort: "set (fst (array_sort c xs s)) = set xs"
  by (metis mset_array_sort set_mset_mset)

lemma distinct_array_sort: "distinct (fst (array_sort c xs s)) = distinct xs"
  by (metis mset_array_sort distinct_count_atmost_1 set_mset_mset count_mset_0_iff mset_eq_imp_distinct_iff)

section \<open>Facets\<close>

lemma fold_collect_item:
  "fold collect_item D (ts, cs, ds) =
     (collect_field Topic D ts, collect_field Company D cs, collect_field Date D ds)"
  by (induction D arbitrary: ts cs ds) (simp_all add: collect_field_def collect_item_def)

lemma distinct_collect_field: "distinct m \<Longrightarrow> distinct (collect_field f D m)"
  by (induction D arbitrary: m) (simp_all add: collect_field_def set_add_def)

lemma set_collect_field:
  "set (collect_field f D m) = set m \<union> {f r | r. r \<in> set D \<and> f r \<noteq> []}"
  by (induction D arbitrary: m) (auto simp: collect_field_def set_add_def)

lemma agrees_date:
  assumes "\<forall>d \<in> A. getTime d \<noteq> None"
  shows "agrees (date_compare getTime) (\<lambda>d. - the (getTime d)) A"
  unfolding agrees_def
proof (intro ballI allI)
  fix y x and s :: unit
  assume "y \<in> A" "x \<in> A"
  then obtain ty tx where t: "getTime y = Some ty" "getTime x = Some tx"
    using assms by fastforce
  have "SortCompare (date_compare getTime) y x s = (of_int (tx - ty), s)"
    by (simp add: SortCompare_def date_compare_def t)
  then show "(0 < fst (SortCompare (date_compare getTime) y x s)) =
      (- the (getTime x) < - the (getTime y))"
    by (simp add: t)
qed

lemma sorted_map_uminus: "sorted (map uminus (xs :: int list)) = sorted (rev xs)"
  by (induction xs) (auto simp: sorted_append)

lemma map_filter_total:
  "\<forall>d \<in> set ds. g d \<noteq> None \<Longrightarrow> List.map_filter g ds = map (\<lambda>d. the (g d)) ds"
  by (induction ds) (auto simp: List.map_filter_simps)

lemma descending_dates:
  assumes "\<forall>d \<in> set ds. getTime d \<noteq> None"
  shows "descending_by_time getTime (fst (array_sort (date_compare getTime) ds ()))"
proof -
  let ?r = "fst (array_sort (date_compare getTime) ds ())"
  have "sorted (map (\<lambda>d. - the (getTime d)) ?r)"
    using array_sort_sorted [OF agrees_date [OF assms]] .
  then have "sorted (map uminus (map (\<lambda>d. the (getTime d)) ?r))"
    by (simp add: comp_def)
  then have "sorted (rev (map (\<lambda>d. the (getTime d)) ?r))"
    by (simp only: sorted_map_uminus)
  moreover have "\<forall>d \<in> set ?r. getTime d \<noteq> None"
    using assms by (simp add: set_array_sort)
  ultimately show ?thesis
    by (simp add: descending_by_time_def map_filter_total)
qed

lemma filterOptions_fields:
  "topics (filterOptions g D) = fst (array_sort default_compare (collect_field Topic D []) ())"
  "companies (filterOptions g D) = fst (array_sort default_compare (collect_field Company D []) ())"
  "dates (filterOptions g D) = fst (array_sort (date_compare g) (collect_field Date D []) ())"
  by (simp_all add: filterOptions_def fold_collect_item)

lemma single_topic_nonempty:
  "r \<in> set D \<Longrightarrow> filteredData D [Topic r] [] [] [] \<noteq> []"
  by (auto simp: filteredData_def filter_empty_conv filter_item_def includes_arr_def)

lemma single_company_nonempty:
  "r \<in> set D \<Longrightarrow> filteredData D [] [Company r] [] [] \<noteq> []"
  by (auto simp: filteredData_def filter_empty_conv filter_item_def includes_arr_def)

lemma single_date_nonempty:
  "r \<in> set D \<Longrightarrow> filteredData D [] [] [Date r] [] \<noteq> []"
  by (auto simp: filteredData_def filter_empty_conv filter_item_def includes_arr_def)

text \<open>
  Claim C6, as stated, for the dates: the facet list is sorted by parsed calendar value,
  most recent first. It fails on three rows dated 2023-01-01, n/a and 2024-01-01: the
  comparator answers NaN whenever n/a is one of its arguments, no entry moves, and
  2023 stays ahead of 2024.
\<close>

theorem filterOptions_dates_not_descending:
  "\<not> descending_by_time iso_getTime (dates (filterOptions iso_getTime mixed_dates))"
  by code_simp

text \<open>
  Claim C6, amended. Topics and companies are the distinct non-empty values, without
  duplicates, in lexicographic order of their code units. Dates are the distinct
  non-empty date strings without duplicates, and they are in descending order of their
  parsed time when every non-empty date string of the dataset parses. Filtering the
  dataset by any single value of a facet list gives a non-empty list.
\<close>

theorem filterOptions_facets:
  "distinct (topics (filterOptions getTime D)) \<and>
   sorted (topics (filterOptions getTime D)) \<and>
   set (topics (filterOptions getTime D)) = {Topic r | r. r \<in> set D \<and> Topic r \<noteq> []} \<and>
   distinct (companies (filterOptions getTime D)) \<and>
   sorted (companies (filterOptions getTime D)) \<and>
   set (companies (filterOptions getTime D)) = {Company r | r. r \<in> set D \<and> Company r \<noteq> []} \<and>
   distinct (dates (filterOptions getTime D)) \<and>
   set (dates (filterOptions getTime D)) = {Date r | r. r \<in> set D \<and> Date r \<noteq> []} \<and>
   ((\<forall>r \<in> set D. Date r \<noteq> [] \<longrightarrow> getTime (Date r) \<noteq> None) \<longrightarrow>
      descending_by_time getTime (dates (filterOptions getTime D))) \<and>
   (\<forall>v \<in> set (topics (filterOptions getTime D)). filteredData D [v] [] [] [] \<noteq> []) \<and>
   (\<forall>v \<in> set (companies (filterOptions getTime D)). filteredData D [] [v] [] [] \<noteq> []) \<and>
   (\<forall>v \<in> set (dates (filterOptions getTime D)). filteredData D [] [] [v] [] \<noteq> [])"
proof -
  let ?F = "filterOptions getTime D"
  have st: "set (topics ?F) = {Topic r | r. r \<in> set D \<and> Topic r \<noteq> []}"
    and sc: "set (companies ?F) = {Company r | r. r \<in> set D \<and> Company r \<noteq> []}"
    and sd: "set (dates ?F) = {Date r | r. r \<in> set D \<and> Date r \<noteq> []}"
    by (simp_all add: filterOptions_fields set_array_sort set_collect_field)
  have dist: "distinct (topics ?F)" "distinct (companies ?F)" "distinct (dates ?F)"
    by (simp_all add: filterOptions_fields distinct_array_sort distinct_collect_field)
  have srt: "sorted (topics ?F)" "sorted (companies ?F)"
    using array_sort_sorted [OF agrees_default, of "collect_field Topic D []" "()"]
      array_sort_sorted [OF agrees_default, of "collect_field Company D []" "()"]
    by (simp_all add: filterOptions_fields)
  have desc: "descending_by_time getTime (dates ?F)"
    if "\<forall>r \<in> set D. Date r \<noteq> [] \<longrightarrow> getTime (Date r) \<noteq> None"
  proof -
    have "\<forall>d \<in> set (collect_field Date D []). getTime d \<noteq> None"
      using that by (auto simp: set_collect_field)
    then show ?thesis
      by (simp add: filterOptions_fields descending_dates)
  qed
  have ne: "\<forall>v \<in> set (topics ?F). filteredData D [v] [] [] [] \<noteq> []"
    "\<forall>v \<in> set (companies ?F). filteredData D [] [v] [] [] \<noteq> []"
    "\<forall>v \<in> set (dates ?F). filteredData D [] [] [v] [] \<noteq> []"
    using single_topic_nonempty single_company_nonempty single_date_nonempty
    unfolding st sc sd by blast+
  from st sc sd dist srt desc ne show ?thesis by blast
qed


theorem filterOptions_facets_witness:
  "dates (filterOptions iso_getTime parsable_dates) = [''2024-01-01'', ''2023-01-01''] \<and>
   descending_by_time iso_getTime (dates (filterOptions iso_getTime parsable_dates)) \<and>
   filteredData parsable_dates [] [] [''2024-01-01''] [] \<noteq> [] \<and>
   filteredData parsable_dates [''Phishing''] [] [] [] \<noteq> [] \<and>
   filteredData parsable_dates [] [''Acme''] [] [] \<noteq> []"
proof -
  have h: "\<forall>r \<in> set parsable_dates. Date r \<noteq> [] \<longrightarrow> iso_getTime (Date r) \<noteq> None"
    by (simp add: parsable_dates_def dated_def iso_getTime_def)
  have d: "dates (filterOptions iso_getTime parsable_dates) = [''2024-01-01'', ''2023-01-01'']"
    by code_simp
  have t: "topics (filterOptions iso_getTime parsable_dates) = [''Phishing'']"
    by code_simp
  have c: "companies (filterOptions iso_getTime parsable_dates) = [''Acme'']"
    by code_simp
  have "''2024-01-01'' \<in> set (dates (filterOptions iso_getTime parsable_dates))"
    "''Phishing'' \<in> set (topics (filterOptions iso_getTime parsable_dates))"
    "''Acme'' \<in> set (companies (filterOptions iso_getTime parsable_dates))"
    by (simp_all add: d t c)
  with filterOptions_facets [of iso_getTime parsable_dates] h d show ?thesis
    by blast
qed

section \<open>Summary client\<close>

text \<open>
  Claim C8. On the empty list \<open>generateSummary\<close> returns the fixed message as its
  value, not as an error, and makes no request to the model.
\<close>

theorem generateSummary_empty:
  "generateSummary generateContent [] = ([], Inr ''No data available to generate a summary.'')"
  by (simp add: generateSummary_def)

lemma stringify_entries_map: "stringify_entries xs = map stringify_value xs"
  by (induction xs) simp_all

lemma stringify_drops_reason:
  "\<not> has_property ''reason'' (stringify_value v)"
  "\<not> has_property_in ''reason'' (stringify_properties ps)"
  "\<not> has_property_among ''reason'' (stringify_entries xs)"
  by (induction v and ps and xs rule: stringify_value_stringify_properties_stringify_entries.induct)
    simp_all

lemma stringify_keeps_other:
  "\<not> has_property ''reason'' v \<Longrightarrow> stringify_value v = v"
  "\<not> has_property_in ''reason'' ps \<Longrightarrow> stringify_properties ps = ps"
  "\<not> has_property_among ''reason'' xs \<Longrightarrow> stringify_entries xs = xs"
  by (induction v and ps and xs rule: stringify_value_stringify_properties_stringify_entries.induct)
    simp_all

text \<open>The replacer's traversal writes each value without its \<open>reason\<close> properties.\<close>

lemma stringify_is_without_reason:
  "stringify_value v = without_reason v"
  "stringify_properties ps =
     map (\<lambda>p. (fst p, without_reason (snd p))) (filter (\<lambda>p. fst p \<noteq> ''reason'') ps)"
  "stringify_entries xs = map without_reason xs"
  by (induction v and ps and xs rule: stringify_value_stringify_properties_stringify_entries.induct)
    simp_all

text \<open>For a record whose fields are not objects or arrays, only the field itself goes.\<close>

lemma without_reason_flat:
  assumes "\<forall>p \<in> set props. \<forall>ps. snd p \<noteq> JObject ps" and "\<forall>p \<in> set props. \<forall>xs. snd p \<noteq> JArray xs"
  shows "without_reason (JObject props) = JObject (filter (\<lambda>p. fst p \<noteq> ''reason'') props)"
proof -
  have "without_reason (snd p) = snd p" if "p \<in> set props" for p
    using that assms by (cases "snd p") auto
  then have "map (\<lambda>p. (fst p, without_reason (snd p))) (filter (\<lambda>p. fst p \<noteq> ''reason'') props) =
      filter (\<lambda>p. fst p \<noteq> ''reason'') props"
    by (intro map_idI) simp
  then show ?thesis by simp
qed

lemma generateSummary_requests:
  "data \<noteq> [] \<Longrightarrow>
     fst (generateSummary generateContent data) = [JArray (map without_reason (take 50 data))]"
  by (simp add: generateSummary_def Let_def stringify_is_without_reason)

text \<open>
  Claim C5. Given more than 50 records, the one request made carries exactly 50
  entries: the first 50 records in their order, each as it was given but for its
  \<open>reason\<close>. A non-empty list of at most 50 records is sent whole in the same way.
  Whatever the input, no object in a request has a property named \<open>reason\<close>, at any
  depth.
\<close>

theorem generateSummary_payload:
  "(50 < length data \<longrightarrow>
      fst (generateSummary generateContent data) = [JArray (map without_reason (take 50 data))] \<and>
      length (map without_reason (take 50 data)) = 50) \<and>
   (data \<noteq> [] \<and> length data \<le> 50 \<longrightarrow>
      fst (generateSummary generateContent data) = [JArray (map without_reason data)]) \<and>
   (\<forall>payload \<in> set (fst (generateSummary generateContent data)).
      \<not> has_property ''reason'' payload)"
proof (intro conjI impI ballI)
  assume big: "50 < length data"
  then have "data \<noteq> []" by auto
  then show "fst (generateSummary generateContent data) = [JArray (map without_reason (take 50 data))]"
    by (rule generateSummary_requests)
  show "length (map without_reason (take 50 data)) = 50"
    using big by simp
next
  assume "data \<noteq> [] \<and> length data \<le> 50"
  then show "fst (generateSummary generateContent data) = [JArray (map without_reason data)]"
    using generateSummary_requests [of data generateContent] by simp
next
  fix payload assume "payload \<in> set (fst (generateSummary generateContent data))"
  then have "\<exists>xs. payload = stringify_value (JArray xs)"
    by (auto simp: generateSummary_def Let_def split: if_splits)
  then show "\<not> has_property ''reason'' payload"
    using stringify_drops_reason(1) by metis
qed

theorem generateSummary_payload_witness:
  "50 < length results51 \<and>
   fst (generateSummary (\<lambda>p. Inr (Some ''ok'')) results51) = [JArray (map sent_no [0..<50])] \<and>
   \<not> has_property ''reason'' (hd (fst (generateSummary (\<lambda>p. Inr (Some ''ok'')) results51))) \<and>
   fst (generateSummary (\<lambda>p. Inr (Some ''ok'')) [result_no 0, result_no 1]) =
     [JArray [sent_no 0, sent_no 1]]"
proof -
  have l: "50 < length results51"
    by (simp add: results51_def)
  have s: "[result_no 0, result_no 1] \<noteq> [] \<and> length [result_no 0, result_no 1] \<le> 50"
    by simp
  have one: "without_reason (result_no i) = sent_no i" for i
    by (simp add: result_no_def sent_no_def)
  have "take 50 results51 = map result_no [0..<50]"
    by (simp add: results51_def take_map take_upt)
  then have t: "map without_reason (take 50 results51) = map sent_no [0..<50]"
    by (simp add: one)
  have u: "map without_reason [result_no 0, result_no 1] = [sent_no 0, sent_no 1]"
    by (simp add: one)
  note claim = generateSummary_payload [of results51 "\<lambda>p. Inr (Some ''ok'')"]
  from claim l
  have p: "fst (generateSummary (\<lambda>p. Inr (Some ''ok'')) results51) =
      [JArray (map without_reason (take 50 results51))]"
    by blast
  then have "hd (fst (generateSummary (\<lambda>p. Inr (Some ''ok'')) results51)) \<in>
      set (fst (generateSummary (\<lambda>p. Inr (Some ''ok'')) results51))"
    by simp
  with claim
  have r: "\<not> has_property ''reason'' (hd (fst (generateSummary (\<lambda>p. Inr (Some ''ok'')) results51)))"
    by blast
  from generateSummary_payload [of "[result_no 0, result_no 1]" "\<lambda>p. Inr (Some ''ok'')"] s
  have q: "fst (generateSummary (\<lambda>p. Inr (Some ''ok'')) [result_no 0, result_no 1]) =
      [JArray (map without_reason [result_no 0, result_no 1])]"
    by blast
  from l p [unfolded t] r q [unfolded u] show ?thesis
    by blast
qed

section \<open>Relevance search: reading the response\<close>

lemma findRelevantStats_parts:
  "findRelevantStats rnd gc parse q data =
     (fst (findRelevantStats_request rnd q data), snd (findRelevantStats_request rnd q data),
      findRelevantStats_response parse (gc (snd (findRelevantStats_request rnd q data))))"
  by (simp add: findRelevantStats_def split: prod.splits)

lemma response_blank:
  "trim text = [] \<Longrightarrow> findRelevantStats_response parse (Inr (Some text)) = Inr []"
  by (simp add: findRelevantStats_response_def)

lemma response_not_array:
  "trim text \<noteq> [] \<Longrightarrow> parse (trim text) = Some v \<Longrightarrow> \<not> isArray v \<Longrightarrow>
     findRelevantStats_response parse (Inr (Some text)) = Inr []"
  by (simp add: findRelevantStats_response_def)

lemma response_array:
  "trim text \<noteq> [] \<Longrightarrow> parse (trim text) = Some (JArray rs) \<Longrightarrow>
     findRelevantStats_response parse (Inr (Some text)) = Inr rs"
  by (simp add: findRelevantStats_response_def isArray_def)

lemma response_no_text:
  "findRelevantStats_response parse (Inr None) = Inl search_failed"
  by (simp add: findRelevantStats_response_def)

lemma response_throws_iff:
  "(\<exists>e. findRelevantStats_response parse settled = Inl e) \<longleftrightarrow>
     (\<exists>e. settled = Inl e) \<or> settled = Inr None \<or>
     (\<exists>text. settled = Inr (Some text) \<and> trim text \<noteq> [] \<and> parse (trim text) = None)"
proof (cases settled)
  case (Inl e)
  then show ?thesis by (simp add: findRelevantStats_response_def)
next
  case (Inr t)
  show ?thesis
  proof (cases t)
    case None
    with Inr show ?thesis by (simp add: findRelevantStats_response_def)
  next
    case (Some body)
    with Inr show ?thesis
      by (auto simp: findRelevantStats_response_def Let_def split: option.splits jsvalue.splits)
  qed
qed

lemma response_error:
  "findRelevantStats_response parse settled = Inl e \<Longrightarrow> e = search_failed"
  by (auto simp: findRelevantStats_response_def Let_def
      split: sum.splits option.splits jsvalue.splits if_splits)

text \<open>
  Every way the call can end. A response whose text is empty or blank gives the empty
  list, and so does one that parses to a value that is not an array. The call throws
  when the request is rejected, when the response carries no text, and when
  \<open>JSON.parse\<close> throws on a non-blank text, and in no other case; what it throws is
  the fixed search error.
\<close>

lemma findRelevantStats_outcomes:
  assumes "findRelevantStats rnd generateContent JSON_parse userQuery data = (data', request, result)"
  shows
    "(\<forall>text. generateContent request = Inr (Some text) \<and> trim text = [] \<longrightarrow> result = Inr []) \<and>
     (\<forall>text v. generateContent request = Inr (Some text) \<and> trim text \<noteq> [] \<and>
        JSON_parse (trim text) = Some v \<and> \<not> isArray v \<longrightarrow> result = Inr []) \<and>
     ((\<exists>e. result = Inl e) \<longleftrightarrow>
        (\<exists>e. generateContent request = Inl e) \<or> generateContent request = Inr None \<or>
        (\<exists>text. generateContent request = Inr (Some text) \<and> trim text \<noteq> [] \<and>
           JSON_parse (trim text) = None)) \<and>
     (\<forall>e. result = Inl e \<longrightarrow> e = search_failed)"
proof -
  have r: "result = findRelevantStats_response JSON_parse (generateContent request)"
    using assms by (auto simp: findRelevantStats_parts)
  have "\<forall>text. generateContent request = Inr (Some text) \<and> trim text = [] \<longrightarrow> result = Inr []"
    by (simp add: r response_blank)
  moreover have "\<forall>text v. generateContent request = Inr (Some text) \<and> trim text \<noteq> [] \<and>
        JSON_parse (trim text) = Some v \<and> \<not> isArray v \<longrightarrow> result = Inr []"
    by (simp add: r response_not_array)
  moreover have "(\<exists>e. result = Inl e) \<longleftrightarrow>
        (\<exists>e. generateContent request = Inl e) \<or> generateContent request = Inr None \<or>
        (\<exists>text. generateContent request = Inr (Some text) \<and> trim text \<noteq> [] \<and>
           JSON_parse (trim text) = None)"
    unfolding r by (rule response_throws_iff)
  moreover have "\<forall>e. result = Inl e \<longrightarrow> e = search_failed"
    unfolding r using response_error by blast
  ultimately show ?thesis by (intro conjI)
qed

text \<open>Blank texts, the no-break space among them, and a value that is not an array.\<close>

lemma findRelevantStats_empty_results:
  "snd (snd (findRelevantStats steady_draws (\<lambda>r. Inr (Some [])) parse_literals
      ''phishing'' [example_record])) = Inr [] \<and>
   snd (snd (findRelevantStats steady_draws (\<lambda>r. Inr (Some [CHR '' '', CHR 0xA0, CHR 0x0A]))
      parse_literals ''phishing'' [example_record])) = Inr [] \<and>
   snd (snd (findRelevantStats steady_draws (\<lambda>r. Inr (Some '' {} '')) parse_literals
      ''phishing'' [example_record])) = Inr []"
  by (simp add: findRelevantStats_parts findRelevantStats_response_def trim_def is_space_def
      parse_literals_def isArray_def)

text \<open>
  Claim C4 says that an empty model response gives an empty list of results and is not
  an error. The code tests for it with \<open>if (!jsonText) return []\<close>, but only after
  \<open>const jsonText = response.text.trim()\<close>: when the response carries no text,
  \<open>response.text\<close> is undefined, \<open>trim\<close> throws inside the \<open>try\<close>, and the
  \<open>catch\<close> throws the search error. With the empty string for a text the same call
  returns the empty list.
\<close>

theorem findRelevantStats_no_text_throws:
  "findRelevantStats steady_draws (\<lambda>r. Inr None) parse_literals ''phishing'' [example_record] =
     ([example_record], \<lparr>query = ''phishing'', available_data = [example_record]\<rparr>,
      Inl (Error ''Failed to get a response from the AI. Please try again.'')) \<and>
   findRelevantStats steady_draws (\<lambda>r. Inr (Some [])) parse_literals ''phishing'' [example_record] =
     ([example_record], \<lparr>query = ''phishing'', available_data = [example_record]\<rparr>, Inr [])"
  by (simp add: findRelevantStats_parts findRelevantStats_request_def select_dataSubset_def
      findRelevantStats_response_def search_failed_def trim_def)

section \<open>View coordinator: submissions that are ignored\<close>

text \<open>
  Claim C9. Submitting a search while the query is blank (empty or white space only) or
  while a search is in flight changes nothing: the state, and with it the active view,
  stays as it was, and no request goes to the relevance search client. This holds from
  every state, the Browse state among them.
\<close>

theorem handleAiSearch_rejects:
  assumes "trim (searchQuery s) = [] \<or> isSearching s"
  shows "handleAiSearch_submit rnd s = (s, None) \<and>
         step rnd SearchSubmitted s = s \<and>
         activeView (step rnd SearchSubmitted s) = activeView s"
  using assms by (auto simp: handleAiSearch_submit_def)

theorem handleAiSearch_rejects_witness:
  "trim (searchQuery blank_query_state) = [] \<and>
   activeView blank_query_state = Browse \<and>
   handleAiSearch_submit steady_draws blank_query_state = (blank_query_state, None) \<and>
   activeView (step steady_draws SearchSubmitted blank_query_state) = Browse"
proof -
  have b: "trim (searchQuery blank_query_state) = []"
    by (simp add: blank_query_state_def trim_def is_space_def)
  have v: "activeView blank_query_state = Browse"
    by (simp add: blank_query_state_def browse_state_def loadData_settled_def initial_state_def
        activeView_def truthy_def)
  from handleAiSearch_rejects [of blank_query_state steady_draws] b v show ?thesis
    by simp
qed

section \<open>View coordinator: the detail overlay\<close>

lemma submit_selectedStat:
  "selectedStat (fst (handleAiSearch_submit rnd s)) =
     (if trim (searchQuery s) = [] \<or> isSearching s then selectedStat s else None)"
  by (simp add: handleAiSearch_submit_def handleClearSummary_def split: prod.splits)

text \<open>
  Claim C7, as stated: submitting a new AI search leaves an open detail overlay open.
  With a query typed and no search in flight, \<open>handleAiSearch\<close> runs
  \<open>setSelectedStat(null)\<close> and the overlay is closed.
\<close>

theorem search_submission_closes_detail:
  "selectedStat open_state = Some (Row example_record) \<and>
   selectedStat (step steady_draws SearchSubmitted open_state) = None"
  by (simp add: open_state_def browse_state_def loadData_settled_def initial_state_def
      handleAiSearch_submit_def handleClearSummary_def trim_def is_space_def
      split: prod.splits)

text \<open>
  Claim C7, amended. While the detail overlay is open, it is closed by the explicit
  close action, by the Escape key, and by an AI search submission that is accepted
  (non-blank query, no search in flight), and by nothing else: no facet toggle, filter
  reset, term or query edit, clearing of the AI search, settled search, or summary
  action closes it.
\<close>

theorem detail_closed_by:
  assumes "selectedStat s \<noteq> None"
  shows "selectedStat (step rnd e s) = None \<longleftrightarrow>
           e = ModalClosed \<or> e = EscapePressed \<or>
           (e = SearchSubmitted \<and> trim (searchQuery s) \<noteq> [] \<and> \<not> isSearching s)"
proof (cases e)
  case SearchSubmitted
  then show ?thesis using assms by (simp add: submit_selectedStat)
next
  case (DataSettled r)
  then show ?thesis using assms by (simp add: loadData_settled_def split: sum.splits)
next
  case (SearchSettled r)
  then show ?thesis using assms
    by (simp add: handleAiSearch_settled_def split: sum.splits error.splits)
next
  case (SummarySettled r)
  then show ?thesis using assms
    by (simp add: handleGenerateSummary_settled_def split: sum.splits error.splits)
qed (use assms in \<open>simp_all add: handleTopicToggle_def handleCompanyToggle_def
      handleDateToggle_def handleResetFilters_def handleClearSummary_def handleClearAiSearch_def
      handleStatSelect_def handleCloseModal_def handleGenerateSummary_submit_def\<close>)

theorem detail_closed_by_witness:
  "selectedStat open_state \<noteq> None \<and>
   selectedStat (step steady_draws (TopicToggled ''Phishing'') open_state) \<noteq> None \<and>
   selectedStat (step steady_draws FiltersReset open_state) \<noteq> None \<and>
   selectedStat (step steady_draws EscapePressed open_state) = None \<and>
   selectedStat (step steady_draws SearchSubmitted open_state) = None \<and>
   selectedStat open_blank_state \<noteq> None \<and>
   selectedStat (step steady_draws SearchSubmitted open_blank_state) \<noteq> None"
proof -
  have h: "selectedStat open_state \<noteq> None"
    by (simp add: open_state_def)
  have q: "trim (searchQuery open_state) \<noteq> []" "\<not> isSearching open_state"
    by (simp_all add: open_state_def browse_state_def loadData_settled_def initial_state_def
        trim_def is_space_def)
  have h': "selectedStat open_blank_state \<noteq> None"
    by (simp add: open_blank_state_def open_state_def)
  have q': "trim (searchQuery open_blank_state) = []"
    by (simp add: open_blank_state_def trim_def is_space_def)
  from detail_closed_by [OF h, of steady_draws "TopicToggled ''Phishing''"]
    detail_closed_by [OF h, of steady_draws FiltersReset]
    detail_closed_by [OF h, of steady_draws EscapePressed]
    detail_closed_by [OF h, of steady_draws SearchSubmitted]
    detail_closed_by [OF h', of steady_draws SearchSubmitted] h h' q q'
  show ?thesis by simp
qed

section \<open>Relevance search: the data sent\<close>

lemma SortCompare_random:
  "SortCompare (random_compare rnd) y x k = (1 / 2 - rnd k, Suc k)"
  by (simp add: SortCompare_def random_compare_def)

lemma insert_sorted_no_move:
  "\<not> rnd k < 1 / 2 \<Longrightarrow>
     insert_sorted (random_compare rnd) x (y # ys) k = (x # y # ys, Suc k)"
  by (simp add: SortCompare_random)

lemma sort_loop_no_move:
  "\<forall>i \<ge> k. \<not> rnd i < 1 / 2 \<Longrightarrow>
     fst (sort_loop (random_compare rnd) xs placed k) = rev placed @ xs"
proof (induction xs arbitrary: placed k)
  case Nil
  show ?case by simp
next
  case (Cons x xs)
  show ?case
  proof (cases placed)
    case Nil
    with Cons.IH [of k "[x]"] Cons.prems show ?thesis by simp
  next
    case (Cons y ys)
    have "\<not> rnd k < 1 / 2" using Cons.prems by simp
    then have "insert_sorted (random_compare rnd) x placed k = (x # placed, Suc k)"
      unfolding Cons by (rule insert_sorted_no_move)
    moreover have "\<forall>i \<ge> Suc k. \<not> rnd i < 1 / 2" using Cons.prems by simp
    ultimately show ?thesis
      using Cons.IH [of "Suc k" "x # placed"] by simp
  qed
qed

lemma array_sort_swap:
  "fst (array_sort (random_compare swap_draws) (x0 # x1 # rest) 0) = x1 # x0 # rest"
proof -
  have "insert_sorted (random_compare swap_draws) x1 [x0] 0 = ([x0, x1], Suc 0)"
    by (simp add: SortCompare_random swap_draws_def)
  moreover have "fst (sort_loop (random_compare swap_draws) rest [x0, x1] (Suc 0)) = rev [x0, x1] @ rest"
    by (rule sort_loop_no_move) (simp add: swap_draws_def)
  ultimately show ?thesis
    by (simp add: array_sort_def)
qed

lemma mset_take_sub: "mset (take n xs) \<subseteq># mset xs"
proof -
  have "mset xs = mset (take n xs) + mset (drop n xs)"
    by (metis append_take_drop_id mset_append)
  then show ?thesis by simp
qed

lemma request_of_findRelevantStats:
  "fst (snd (findRelevantStats rnd gc parse q data)) = snd (findRelevantStats_request rnd q data)"
  by (simp add: findRelevantStats_parts)

lemma length_array_sort: "length (fst (array_sort c xs s)) = length xs"
  by (metis mset_array_sort size_mset)

lemma take_2_corpus201: "take 2 corpus201 = [record_no 0, record_no 1]"
proof -
  have "take 2 [0..<201] = [0, 1]"
    by code_simp
  then show ?thesis
    by (simp add: corpus201_def take_map)
qed

lemma corpus201_unfold:
  "corpus201 = record_no 0 # record_no 1 # drop 2 corpus201"
  using append_take_drop_id [of 2 corpus201] by (simp add: take_2_corpus201)

lemma length_corpus201: "length corpus201 = 201"
  by (simp add: corpus201_def)

text \<open>
  Claim C3 speaks of a uniformly random sample. How the sample is distributed is settled
  by the generator behind \<open>Math.random\<close> and by the order in which the engine's sort
  calls a comparator that is not consistent; the source fixes neither, so the model has
  no distribution to state uniformity over, and it is not stated here. What the source
  does fix holds for every sequence of draws and uses of the sort only that it
  permutes: a corpus of 200 or fewer records is sent whole, and from a larger one
  exactly 200 records are sent, the first 200 entries of a reordering of the corpus,
  so drawn without replacement.
\<close>

lemma findRelevantStats_sample:
  "(length data \<le> 200 \<longrightarrow>
      available_data (fst (snd (findRelevantStats rnd gc parse q data))) = data) \<and>
   (200 < length data \<longrightarrow>
      length (available_data (fst (snd (findRelevantStats rnd gc parse q data)))) = 200 \<and>
      (\<exists>shuffled. mset shuffled = mset data \<and>
         available_data (fst (snd (findRelevantStats rnd gc parse q data))) = take 200 shuffled) \<and>
      mset (available_data (fst (snd (findRelevantStats rnd gc parse q data)))) \<subseteq># mset data)"
proof (intro conjI impI)
  assume "length data \<le> 200"
  then show "available_data (fst (snd (findRelevantStats rnd gc parse q data))) = data"
    by (simp add: request_of_findRelevantStats findRelevantStats_request_def select_dataSubset_def)
next
  assume big: "200 < length data"
  let ?sorted = "fst (array_sort (random_compare rnd) data 0)"
  have a: "available_data (fst (snd (findRelevantStats rnd gc parse q data))) = take 200 ?sorted"
    using big
    by (simp add: request_of_findRelevantStats findRelevantStats_request_def select_dataSubset_def Let_def)
  have m: "mset ?sorted = mset data"
    by (rule mset_array_sort)
  show "length (available_data (fst (snd (findRelevantStats rnd gc parse q data)))) = 200"
    using big by (simp add: a length_array_sort)
  show "\<exists>shuffled. mset shuffled = mset data \<and>
      available_data (fst (snd (findRelevantStats rnd gc parse q data))) = take 200 shuffled"
    using a m by blast
  show "mset (available_data (fst (snd (findRelevantStats rnd gc parse q data)))) \<subseteq># mset data"
    using mset_take_sub [of 200 ?sorted] by (simp add: a m)
qed

section \<open>The dataset after a search\<close>

text \<open>
  Every handler but the search leaves \<open>allData\<close> alone, and so does a search over
  200 or fewer rows; a search over more rows keeps the rows and may change their order.
\<close>

lemma allData_frame:
  assumes "e \<noteq> SearchSubmitted" and "\<forall>r. e \<noteq> DataSettled r"
  shows "allData (step rnd e s) = allData s"
  using assms
  by (cases e)
    (simp_all add: handleTopicToggle_def handleCompanyToggle_def handleDateToggle_def
      handleResetFilters_def handleClearSummary_def handleClearAiSearch_def
      handleStatSelect_def handleCloseModal_def handleGenerateSummary_submit_def
      handleAiSearch_settled_def handleGenerateSummary_settled_def
      split: sum.splits error.splits)

lemma allData_after_search:
  "allData (step rnd SearchSubmitted s) =
     (if trim (searchQuery s) = [] \<or> isSearching s then allData s
      else fst (select_dataSubset rnd (allData s)))"
  by (simp add: handleAiSearch_submit_def findRelevantStats_request_def handleClearSummary_def
      split: prod.splits)

lemma allData_search_small:
  "length (allData s) \<le> 200 \<Longrightarrow> allData (step rnd SearchSubmitted s) = allData s"
  by (subst allData_after_search) (simp add: select_dataSubset_def)

lemma allData_search_same_rows:
  "mset (allData (step rnd SearchSubmitted s)) = mset (allData s)"
  by (subst allData_after_search) (simp add: select_dataSubset_def mset_array_sort Let_def)

text \<open>
  Claim C2 says that after any operation the dataset holds the same records in the same
  order as after load. A search over the corpus of 201 rows, with a first draw of
  \<open>Math.random\<close> below one half, leaves the first two rows of \<open>allData\<close>
  exchanged: \<open>sort\<close> works in place on the array that the state holds.
\<close>

theorem search_reorders_allData:
  "allData big_state = record_no 0 # record_no 1 # drop 2 corpus201 \<and>
   allData (step swap_draws SearchSubmitted big_state) =
     record_no 1 # record_no 0 # drop 2 corpus201 \<and>
   allData (step swap_draws SearchSubmitted big_state) \<noteq> allData big_state"
proof -
  have a: "allData big_state = corpus201" and q: "searchQuery big_state = ''phishing''"
    and i: "\<not> isSearching big_state"
    by (simp_all add: big_state_def loadData_settled_def initial_state_def)
  have t: "trim ''phishing'' \<noteq> []"
    by (simp add: trim_def is_space_def)
  have "fst (select_dataSubset swap_draws corpus201) =
      fst (array_sort (random_compare swap_draws) corpus201 0)"
    by (simp add: select_dataSubset_def length_corpus201 Let_def)
  also have "\<dots> = record_no 1 # record_no 0 # drop 2 corpus201"
    by (subst corpus201_unfold) (rule array_sort_swap)
  finally have s: "fst (select_dataSubset swap_draws corpus201) =
      record_no 1 # record_no 0 # drop 2 corpus201" .
  have b: "allData (step swap_draws SearchSubmitted big_state) =
      fst (select_dataSubset swap_draws corpus201)"
    using a q i t
    by (simp add: handleAiSearch_submit_def findRelevantStats_request_def handleClearSummary_def
        split: prod.splits)
  have n: "record_no 1 \<noteq> record_no 0"
    by (simp add: record_no_def)
  have "allData big_state = record_no 0 # record_no 1 # drop 2 corpus201"
    using a corpus201_unfold by simp
  with b s n show ?thesis by simp
qed


end
